theory Spec2Isabelle
  imports Main "HOL-Library.Word"
begin

section \<open>streamlog: a stream buffer that forwards flushed text to two loggers\<close>

text \<open>
  The header \<^verbatim>\<open>streamlog.hpp\<close> declares one class, \<^verbatim>\<open>streamlog\<close>, derived from
  \<^verbatim>\<open>std::streambuf\<close>. Its member functions are embedded as functions that take the
  object's members (a record) and the part of the outside state they touch, and return
  the updated values.
\<close>

subsection \<open>Characters and the \<^verbatim>\<open>int\<close> unit of \<^verbatim>\<open>overflow\<close>\<close>

type_synonym int_type = "32 word"

text \<open>
  \<^verbatim>\<open>traits_type::to_char_type(c)\<close> is \<^verbatim>\<open>static_cast<char>(c)\<close>: the low eight bits of
  the \<^verbatim>\<open>int\<close>. \<^verbatim>\<open>traits_type::to_int_type(ch)\<close> is the value of \<^verbatim>\<open>ch\<close> read as an
  \<^verbatim>\<open>unsigned char\<close>, and \<^verbatim>\<open>traits_type::eof()\<close> is \<^verbatim>\<open>-1\<close>.
\<close>

definition to_char_type :: "int_type \<Rightarrow> char" where
  "to_char_type c = char_of (sint c)"

definition to_int_type :: "char \<Rightarrow> int_type" where
  "to_int_type ch = of_char ch"

definition eof :: int_type where
  "eof = - 1"

subsection \<open>The two loggers\<close>

text \<open>
  A logger of the logging library is used through three of its member functions only.
  A call is recorded with the handle it was made on, the member function, and the text.
  The state of the two sinks is the list of the calls made so far, oldest first.
  A handle is taken to designate a registered logger, as in the header's example of
  use, where both loggers are created before the first object of the class.
\<close>

datatype member_fn = log_debug | log_info | log_error

datatype 'h invocation = Invoke (inv_sink: 'h) (inv_member: member_fn) (inv_text: string)

type_synonym 'h sinks = "'h invocation list"

subsection \<open>The class\<close>

datatype loglevel = Info | Debug | Error

type_synonym ostream = nat
type_synonym addr = nat

text \<open>
  The data members, in the order of their declaration. \<open>src\<close> names the redirected
  stream, \<open>srcbuf\<close> is the address of the buffer that stream had at construction, and
  \<open>stream\<close> is the buffer wrapped by the \<^verbatim>\<open>std::ostream\<close> the object owns. \<open>level\<close> is
  declared \<^verbatim>\<open>const loglevel &\<close>: the member is a reference, and the record holds the
  address of the caller's object it is bound to, not a level. \<open>fn\<close> is the
  \<^verbatim>\<open>std::function\<close>: a handler bound to this object, which maps the state of the sinks
  before the call to their state after it.
\<close>

record 'h streamlog =
  src :: ostream
  stream :: addr
  srcbuf :: addr
  level :: addr
  screen :: 'h
  logger :: 'h
  sbuffer :: string
  fn :: "string \<Rightarrow> 'h sinks \<Rightarrow> 'h sinks"

text \<open>
  The private handlers. Each reads the members \<open>screen\<close> and \<open>logger\<close> of the object
  it is bound to, passed here as the first two arguments. \<^verbatim>\<open>\e\<close> is the escape
  character, code 27.
\<close>

definition debug :: "'h \<Rightarrow> 'h \<Rightarrow> string \<Rightarrow> 'h sinks \<Rightarrow> 'h sinks" where
  "debug scr lg msg k =
     (let k1 = k @ [Invoke scr log_debug ((CHR 0x1B # ''[00m'') @ msg @ (CHR 0x1B # ''[00m''))]
      in k1 @ [Invoke lg log_debug msg])"

definition info :: "'h \<Rightarrow> 'h \<Rightarrow> string \<Rightarrow> 'h sinks \<Rightarrow> 'h sinks" where
  "info scr lg msg k =
     (let k1 = k @ [Invoke scr log_info ((CHR 0x1B # ''[93m'') @ msg @ (CHR 0x1B # ''[00m''))]
      in k1 @ [Invoke lg log_info msg])"

definition error :: "'h \<Rightarrow> 'h \<Rightarrow> string \<Rightarrow> 'h sinks \<Rightarrow> 'h sinks" where
  "error scr lg msg k =
     (let k1 = k @ [Invoke scr log_error ((CHR 0x1B # ''[91m'') @ msg @ (CHR 0x1B # ''[00m''))]
      in k1 @ [Invoke lg log_error msg])"

text \<open>
  The constructor. \<open>get\<close> stands for the logging library's lookup of a registered logger
  by name, \<open>this\<close> is the address of the object under construction, and \<open>slots\<close> gives
  the buffer of every stream (\<^verbatim>\<open>rdbuf\<close>). The parameter \<^verbatim>\<open>const loglevel &l\<close> is given by
  the address \<open>p\<close> of the object it refers to and the level \<open>l\<close> that object holds
  during the call; the member \<open>level\<close> is bound to the same object, and the switch
  reads \<open>l\<close> through it. The result is the initialised object and the slots after
  \<^verbatim>\<open>o.rdbuf(this)\<close>.
\<close>

definition streamlog_ctor ::
  "(string \<Rightarrow> 'h) \<Rightarrow> addr \<Rightarrow> ostream \<Rightarrow> addr \<Rightarrow> loglevel \<Rightarrow> (ostream \<Rightarrow> addr)
     \<Rightarrow> 'h streamlog \<times> (ostream \<Rightarrow> addr)" where
  "streamlog_ctor get this o' p l slots =
     (let sb = slots o';
          scr = get ''console'';
          lg = get ''logfile''
      in (\<lparr>src = o', stream = sb, srcbuf = sb, level = p, screen = scr, logger = lg,
           sbuffer = [],
           fn = (case l of
                   Debug \<Rightarrow> debug scr lg
                 | Info \<Rightarrow> info scr lg
                 | Error \<Rightarrow> error scr lg)\<rparr>,
          slots(o' := this)))"

text \<open>The destructor: \<^verbatim>\<open>src.rdbuf(srcbuf)\<close>.\<close>

definition streamlog_dtor :: "'h streamlog \<Rightarrow> (ostream \<Rightarrow> addr) \<Rightarrow> (ostream \<Rightarrow> addr)" where
  "streamlog_dtor s slots = slots(src s := srcbuf s)"

text \<open>\<^verbatim>\<open>overflow\<close> returns its \<^verbatim>\<open>int\<close> result and the object after the call.\<close>

definition overflow :: "int_type \<Rightarrow> 'h streamlog \<Rightarrow> int_type \<times> 'h streamlog" where
  "overflow c s = (let ch = to_char_type c in (0, s\<lparr>sbuffer := sbuffer s @ [ch]\<rparr>))"

text \<open>\<^verbatim>\<open>sync\<close> returns its result, the object, and the sinks after the call.\<close>

definition sync :: "'h streamlog \<Rightarrow> 'h sinks \<Rightarrow> int_type \<times> 'h streamlog \<times> 'h sinks" where
  "sync s k =
     (if sbuffer s \<noteq> [] then (0, s\<lparr>sbuffer := []\<rparr>, fn s (sbuffer s) k)
      else (0, s, k))"

text \<open>
  Several calls of \<open>overflow\<close> in a row, as made for the units of a text written
  between two flushes; the results, always 0, are dropped.
\<close>

fun accept_all :: "int_type list \<Rightarrow> 'h streamlog \<Rightarrow> 'h streamlog" where
  "accept_all [] s = s"
| "accept_all (c # cs) s = accept_all cs (snd (overflow c s))"

subsection \<open>Streams, buffers and objects in one store\<close>

text \<open>
  A stream keeps the address of its buffer, and the constructor and the destructor
  write that address; whether a character written to the stream reaches an object
  depends on it. The store maps an address to the buffer that lives there: an object
  of the class, or a buffer of the standard library, which is represented by the
  characters it has received. The member \<open>level\<close> refers to an object of the caller,
  so the store also has the caller's \<^verbatim>\<open>loglevel\<close> objects: \<open>levels\<close> gives the level held
  at an address, and \<open>None\<close> where no such object is alive.
\<close>

datatype 'h streambuf = Plain string | Streamlog "'h streamlog"

record 'h world =
  rdbuf :: "ostream \<Rightarrow> addr"
  heap :: "addr \<rightharpoonup> 'h streambuf"
  levels :: "addr \<rightharpoonup> loglevel"
  sinks :: "'h sinks"

text \<open>
  The declaration \<^verbatim>\<open>streamlog x(o, e);\<close> of an object at the address \<open>this\<close>. The
  argument \<^verbatim>\<open>e\<close> designates an object at the address \<open>p\<close> that holds the level \<open>l\<close>
  at the call: a variable of the caller, or a temporary made for the call, as for the
  enumerators in the header's example of use.
\<close>

definition construct ::
  "(string \<Rightarrow> 'h) \<Rightarrow> addr \<Rightarrow> ostream \<Rightarrow> addr \<Rightarrow> loglevel \<Rightarrow> 'h world \<Rightarrow> 'h world" where
  "construct get this o' p l w =
     (case streamlog_ctor get this o' p l (rdbuf w) of
        (s, slots) \<Rightarrow>
          w\<lparr>rdbuf := slots, heap := (heap w)(this \<mapsto> Streamlog s),
            levels := (levels w)(p \<mapsto> l)\<rparr>)"

text \<open>
  What a program does to the store afterwards. \<open>Put\<close> writes one character to a
  stream and \<open>Flush\<close> flushes a stream; the stream passes both on to the buffer it has
  at that moment (the stream's error state is not represented: \<open>overflow\<close> and \<open>sync\<close>
  never report a failure that would set it). The class sets up no put area, so the
  base class calls \<open>overflow\<close> for every character written, with the character's
  \<open>to_int_type\<close>. \<open>Overflow\<close> and \<open>Sync\<close> call the two public member functions on
  the object at an address, and \<open>Destroy\<close> ends the life of the object at an address.
  These five are what the class offers. The caller can also act on its own
  \<^verbatim>\<open>loglevel\<close> objects: \<open>Assign\<close> stores a level in the object at an address, and
  \<open>Expire\<close> ends its life, as happens to a temporary at the end of the declaration.
  The result is \<open>None\<close> where the program has no defined behaviour: the address holds
  no buffer, not an object of the class where one is needed, or no living
  \<^verbatim>\<open>loglevel\<close> object.
\<close>

datatype operation =
    Put ostream char
  | Flush ostream
  | Overflow addr int_type
  | Sync addr
  | Destroy addr
  | Assign addr loglevel
  | Expire addr

fun step :: "operation \<Rightarrow> 'h world \<Rightarrow> 'h world option" where
  "step (Put o' ch) w =
     (case heap w (rdbuf w o') of
        None \<Rightarrow> None
      | Some (Plain txt) \<Rightarrow> Some (w\<lparr>heap := (heap w)(rdbuf w o' \<mapsto> Plain (txt @ [ch]))\<rparr>)
      | Some (Streamlog s) \<Rightarrow>
          Some (w\<lparr>heap := (heap w)(rdbuf w o' \<mapsto>
                   Streamlog (snd (overflow (to_int_type ch) s)))\<rparr>))"
| "step (Flush o') w =
     (case heap w (rdbuf w o') of
        None \<Rightarrow> None
      | Some (Plain txt) \<Rightarrow> Some w
      | Some (Streamlog s) \<Rightarrow>
          (case sync s (sinks w) of
             (r, s', k') \<Rightarrow>
               Some (w\<lparr>heap := (heap w)(rdbuf w o' \<mapsto> Streamlog s'), sinks := k'\<rparr>)))"
| "step (Overflow a c) w =
     (case heap w a of
        Some (Streamlog s) \<Rightarrow> Some (w\<lparr>heap := (heap w)(a \<mapsto> Streamlog (snd (overflow c s)))\<rparr>)
      | _ \<Rightarrow> None)"
| "step (Sync a) w =
     (case heap w a of
        Some (Streamlog s) \<Rightarrow>
          (case sync s (sinks w) of
             (r, s', k') \<Rightarrow> Some (w\<lparr>heap := (heap w)(a \<mapsto> Streamlog s'), sinks := k'\<rparr>))
      | _ \<Rightarrow> None)"
| "step (Destroy a) w =
     (case heap w a of
        Some (Streamlog s) \<Rightarrow>
          Some (w\<lparr>rdbuf := streamlog_dtor s (rdbuf w), heap := (heap w)(a := None)\<rparr>)
      | _ \<Rightarrow> None)"
| "step (Assign p l) w =
     (case levels w p of
        None \<Rightarrow> None
      | Some _ \<Rightarrow> Some (w\<lparr>levels := (levels w)(p \<mapsto> l)\<rparr>))"
| "step (Expire p) w =
     (case levels w p of
        None \<Rightarrow> None
      | Some _ \<Rightarrow> Some (w\<lparr>levels := (levels w)(p := None)\<rparr>))"

fun run :: "operation list \<Rightarrow> 'h world \<Rightarrow> 'h world option" where
  "run [] w = Some w"
| "run (x # xs) w = (case step x w of None \<Rightarrow> None | Some w' \<Rightarrow> run xs w')"



section \<open>Properties of the member functions\<close>

lemma char_of_sint_uint: "char_of (sint (c :: int_type)) = char_of (uint c)"
  by (simp add: char_of_def bit_sint_iff bit_uint_iff)

lemma unat_of_char: "unat (of_char ch :: int_type) = of_char ch"
proof -
  have "(of_char ch :: int_type) = of_nat (of_char ch)"
    by (simp add: of_nat_of_char)
  then have "unat (of_char ch :: int_type) = (of_char ch :: nat) mod 2 ^ 32"
    by (simp only: unat_of_nat) simp
  moreover have "(of_char ch :: nat) < 2 ^ 32"
    by (rule less_trans [OF nat_of_char_less_256]) simp
  ultimately show ?thesis by simp
qed

lemma to_char_type_to_int_type: "to_char_type (to_int_type ch) = ch"
proof -
  have "char_of (uint (of_char ch :: int_type)) = char_of (unat (of_char ch :: int_type))"
    by (simp only: char_of_nat [symmetric, where ?'a = int]) simp
  then show ?thesis
    by (simp add: to_char_type_def to_int_type_def char_of_sint_uint unat_of_char)
qed

lemma map_to_char_type_to_int_type: "map (to_char_type \<circ> to_int_type) t = t"
  by (induction t) (simp_all add: to_char_type_to_int_type)

lemma accept_all_sbuffer: "accept_all cs s = s\<lparr>sbuffer := sbuffer s @ map to_char_type cs\<rparr>"
  by (induction cs arbitrary: s) (simp_all add: overflow_def)

text \<open>
  C2. Start from an object as a flush leaves it, or as the constructor leaves it. After
  \<open>overflow\<close> has been called for the units \<open>cs\<close>, in this order, \<open>sync\<close> applies the
  bound function \<open>fn\<close> once, to the characters of \<open>cs\<close> in the same order and to
  nothing else; for no units at all it applies nothing. The statement holds for every
  value of \<open>fn\<close>, so it fixes the argument handed over.
\<close>

theorem sync_hands_over_concatenation:
  "sync (accept_all cs (fst (snd (sync s k0)))) k =
     (0, s\<lparr>sbuffer := []\<rparr>, if cs = [] then k else fn s (map to_char_type cs) k)
   \<and> sync (accept_all cs (fst (streamlog_ctor get this o' p l slots))) k =
     (0, fst (streamlog_ctor get this o' p l slots),
      if cs = [] then k
      else fn (fst (streamlog_ctor get this o' p l slots)) (map to_char_type cs) k)"
  by (simp add: accept_all_sbuffer sync_def streamlog_ctor_def Let_def)

text \<open>
  C3. A non-empty text \<open>t\<close> is written unit by unit to a newly constructed object and
  then flushed. Exactly two calls are added to the sinks: one on the handle looked up
  as ``console'', of the member function named like the level, with \<open>t\<close> between the
  level's two markers, and one on the handle looked up as ``logfile'', of the same
  member function, with \<open>t\<close> itself.
\<close>

theorem flush_dispatches_by_level:
  assumes "t \<noteq> []"
  shows "sync (accept_all (map to_int_type t) (fst (streamlog_ctor get this o' p Debug slots))) k =
           (0, fst (streamlog_ctor get this o' p Debug slots),
            k @ [Invoke (get ''console'') log_debug
                   ([CHR 0x1B, CHR ''['', CHR ''0'', CHR ''0'', CHR ''m''] @ t @
                    [CHR 0x1B, CHR ''['', CHR ''0'', CHR ''0'', CHR ''m'']),
                 Invoke (get ''logfile'') log_debug t])
       \<and> sync (accept_all (map to_int_type t) (fst (streamlog_ctor get this o' p Info slots))) k =
           (0, fst (streamlog_ctor get this o' p Info slots),
            k @ [Invoke (get ''console'') log_info
                   ([CHR 0x1B, CHR ''['', CHR ''9'', CHR ''3'', CHR ''m''] @ t @
                    [CHR 0x1B, CHR ''['', CHR ''0'', CHR ''0'', CHR ''m'']),
                 Invoke (get ''logfile'') log_info t])
       \<and> sync (accept_all (map to_int_type t) (fst (streamlog_ctor get this o' p Error slots))) k =
           (0, fst (streamlog_ctor get this o' p Error slots),
            k @ [Invoke (get ''console'') log_error
                   ([CHR 0x1B, CHR ''['', CHR ''9'', CHR ''1'', CHR ''m''] @ t @
                    [CHR 0x1B, CHR ''['', CHR ''0'', CHR ''0'', CHR ''m'']),
                 Invoke (get ''logfile'') log_error t])"
  using assms
  by (simp add: accept_all_sbuffer map_to_char_type_to_int_type sync_def streamlog_ctor_def Let_def
      debug_def info_def error_def Let_def)

theorem flush_dispatches_by_level_witness:
  "sync (accept_all (map to_int_type ''x'') (fst (streamlog_ctor id 7 2 5 Debug (\<lambda>_. 3)))) [] =
     (0, fst (streamlog_ctor id 7 2 5 Debug (\<lambda>_. 3)),
      [Invoke ''console'' log_debug
         [CHR 0x1B, CHR ''['', CHR ''0'', CHR ''0'', CHR ''m'', CHR ''x'',
          CHR 0x1B, CHR ''['', CHR ''0'', CHR ''0'', CHR ''m''],
       Invoke ''logfile'' log_debug ''x''])"
  using flush_dispatches_by_level [of "''x''" id 7 2 5 "\<lambda>_. 3" "[]"] by simp

text \<open>
  C4. Whatever the level an object was constructed with, and whatever the text, also
  the empty one, a call of its bound function keeps the calls made before and adds
  exactly two: the first on the console handle, the second on the logfile handle.
\<close>

theorem console_call_precedes_logfile_call:
  "take (length k) (fn (fst (streamlog_ctor get this o' p l slots)) msg k) = k
   \<and> map inv_sink (drop (length k) (fn (fst (streamlog_ctor get this o' p l slots)) msg k)) =
       [get ''console'', get ''logfile'']"
  by (cases l) (simp_all add: streamlog_ctor_def debug_def info_def error_def Let_def)

text \<open>
  C5. With no pending text \<open>sync\<close> returns 0 and changes neither the object nor the
  sinks. With pending text it returns 0, applies \<open>fn\<close> once to the whole pending text
  and leaves the pending text empty. A second \<open>sync\<close> right after any \<open>sync\<close> changes
  nothing.
\<close>

theorem sync_empty_noop_nonempty_dispatch:
  "(sbuffer s = [] \<longrightarrow> sync s k = (0, s, k))
   \<and> (sbuffer s \<noteq> [] \<longrightarrow> sync s k = (0, s\<lparr>sbuffer := []\<rparr>, fn s (sbuffer s) k))
   \<and> sbuffer (fst (snd (sync s k))) = []
   \<and> sync (fst (snd (sync s k))) k' = (0, fst (snd (sync s k)), k')"
  by (simp add: sync_def)

theorem sync_empty_noop_nonempty_dispatch_witness:
  "sync (fst (streamlog_ctor id 7 2 5 Info (\<lambda>_. 3))) [] =
     (0, fst (streamlog_ctor id 7 2 5 Info (\<lambda>_. 3)), [])
   \<and> sync (accept_all [104, 105] (fst (streamlog_ctor id 7 2 5 Info (\<lambda>_. 3)))) [] =
     (0, fst (streamlog_ctor id 7 2 5 Info (\<lambda>_. 3)),
      fn (fst (streamlog_ctor id 7 2 5 Info (\<lambda>_. 3))) ''hi'' [])"
proof -
  let ?s = "fst (streamlog_ctor id 7 2 5 Info (\<lambda>_. 3)) :: string streamlog"
  have e: "sbuffer ?s = []"
    by (simp add: streamlog_ctor_def Let_def)
  have h: "to_char_type 104 = CHR ''h''" "to_char_type 105 = CHR ''i''"
    by (simp_all add: to_char_type_def char_of_def)
  have n: "accept_all [104, 105] ?s = ?s\<lparr>sbuffer := ''hi''\<rparr>"
    by (simp add: accept_all_sbuffer e h)
  have r: "?s\<lparr>sbuffer := []\<rparr> = ?s"
    by (simp add: streamlog_ctor_def Let_def)
  show ?thesis
    unfolding n
    using sync_empty_noop_nonempty_dispatch [of ?s "[]"]
      sync_empty_noop_nonempty_dispatch [of "?s\<lparr>sbuffer := ''hi''\<rparr>" "[]"]
    by (simp add: e r)
qed

text \<open>
  C9. For every unit, the end-of-file value included, \<open>overflow\<close> returns 0 and makes the
  pending text longer by exactly one character: the one whose code is the unit's low
  eight bits. The end-of-file value gets no treatment of its own; character 255 is
  stored for it.
\<close>

theorem overflow_appends_truncated_unit:
  "overflow c s = (0, s\<lparr>sbuffer := sbuffer s @ [to_char_type c]\<rparr>)
   \<and> (of_char (to_char_type c) :: int) = uint c mod 256
   \<and> length (sbuffer (snd (overflow c s))) = Suc (length (sbuffer s))
   \<and> overflow eof s = (0, s\<lparr>sbuffer := sbuffer s @ [CHR 0xFF]\<rparr>)"
proof -
  have "to_char_type eof = CHR 0xFF"
    by (simp add: to_char_type_def eof_def char_of_def)
  then show ?thesis
    by (simp add: overflow_def) (simp add: to_char_type_def char_of_sint_uint)
qed

text \<open>
  C10. The bound function of an object constructed with level \<open>l\<close> passes the console
  handle the text between a leading marker and the trailing marker \<^verbatim>\<open>\e[00m\<close>, which
  is the same for the three levels. The leading marker is \<^verbatim>\<open>\e[00m\<close> again for
  \<open>Debug\<close>, \<^verbatim>\<open>\e[93m\<close> for \<open>Info\<close> and \<^verbatim>\<open>\e[91m\<close> for \<open>Error\<close>.
\<close>

theorem console_markers:
  "map inv_text (drop (length k) (fn (fst (streamlog_ctor get this o' p l slots)) msg k)) =
     [(case l of
         Debug \<Rightarrow> [CHR 0x1B, CHR ''['', CHR ''0'', CHR ''0'', CHR ''m'']
       | Info \<Rightarrow> [CHR 0x1B, CHR ''['', CHR ''9'', CHR ''3'', CHR ''m'']
       | Error \<Rightarrow> [CHR 0x1B, CHR ''['', CHR ''9'', CHR ''1'', CHR ''m''])
      @ msg @ [CHR 0x1B, CHR ''['', CHR ''0'', CHR ''0'', CHR ''m''],
      msg]"
  by (cases l) (simp_all add: streamlog_ctor_def debug_def info_def error_def Let_def)

text \<open>
  C7. \<open>overflow\<close> is a total function that never reports failure: for every unit and
  every object it returns 0, which differs from the failure value \<open>eof\<close>, and the unit's
  character is appended to the pending text; no other member changes.
\<close>

theorem overflow_total_consumes:
  "overflow c s = (0, s\<lparr>sbuffer := sbuffer s @ [to_char_type c]\<rparr>) \<and> fst (overflow c s) \<noteq> eof"
  by (simp add: overflow_def eof_def)

section \<open>Properties of the store\<close>

lemma heap_construct:
  "heap (construct get this o' p l w) this = Some (Streamlog (fst (streamlog_ctor get this o' p l (rdbuf w))))"
  by (simp add: construct_def split: prod.splits)

lemma step_keeps_members:
  assumes "step x w = Some w'" and "heap w this = Some (Streamlog s)"
  shows "heap w' this = None \<or>
         (\<exists>s'. heap w' this = Some (Streamlog s') \<and> s'\<lparr>sbuffer := []\<rparr> = s\<lparr>sbuffer := []\<rparr>)"
proof (cases x)
  case (Put o' ch)
  with assms show ?thesis
    by (auto simp: overflow_def split: option.splits streambuf.splits if_splits)
next
  case (Flush o')
  with assms show ?thesis
    by (auto simp: sync_def split: option.splits streambuf.splits if_splits)
next
  case (Overflow a c)
  with assms show ?thesis
    by (auto simp: overflow_def split: option.splits streambuf.splits if_splits)
next
  case (Sync a)
  with assms show ?thesis
    by (auto simp: sync_def split: option.splits streambuf.splits if_splits)
next
  case (Destroy a)
  with assms show ?thesis
    by (auto split: option.splits streambuf.splits if_splits)
next
  case (Assign p l)
  with assms show ?thesis
    by (auto split: option.splits)
next
  case (Expire p)
  with assms show ?thesis
    by (auto split: option.splits)
qed

lemma step_keeps_none:
  assumes "step x w = Some w'" and "heap w this = None"
  shows "heap w' this = None"
  using assms
  by (cases x) (auto simp: sync_def split: option.splits streambuf.splits if_splits)

lemma run_keeps_none:
  "run xs w = Some w' \<Longrightarrow> heap w this = None \<Longrightarrow> heap w' this = None"
proof (induction xs arbitrary: w)
  case Nil
  then show ?case by simp
next
  case (Cons x xs)
  then obtain w1 where s: "step x w = Some w1" and r: "run xs w1 = Some w'"
    by (auto split: option.splits)
  from step_keeps_none [OF s Cons.prems(2)] have "heap w1 this = None" .
  with Cons.IH [OF r] show ?case .
qed

lemma run_keeps_members:
  "run xs w = Some w' \<Longrightarrow> heap w this = Some (Streamlog s) \<Longrightarrow>
     heap w' this = None \<or>
     (\<exists>s'. heap w' this = Some (Streamlog s') \<and> s'\<lparr>sbuffer := []\<rparr> = s\<lparr>sbuffer := []\<rparr>)"
proof (induction xs arbitrary: w s)
  case Nil
  then show ?case by simp
next
  case (Cons x xs)
  then obtain w1 where s: "step x w = Some w1" and r: "run xs w1 = Some w'"
    by (auto split: option.splits)
  from step_keeps_members [OF s Cons.prems(2)]
  show ?case
  proof (elim disjE exE conjE)
    assume "heap w1 this = None"
    with run_keeps_none [OF r] show ?thesis by simp
  next
    fix s1
    assume h: "heap w1 this = Some (Streamlog s1)"
      and e: "s1\<lparr>sbuffer := []\<rparr> = s\<lparr>sbuffer := []\<rparr>"
    from Cons.IH [OF r h] e show ?thesis by auto
  qed
qed

lemma run_append:
  "run (xs @ ys) w = (case run xs w of None \<Rightarrow> None | Some w' \<Rightarrow> run ys w')"
  by (induction xs arbitrary: w) (simp_all split: option.splits)

lemma run_puts:
  "rdbuf w o' = a \<Longrightarrow> heap w a = Some (Streamlog s) \<Longrightarrow>
     run (map (Put o') t) w = Some (w\<lparr>heap := (heap w)(a \<mapsto> Streamlog (s\<lparr>sbuffer := sbuffer s @ t\<rparr>))\<rparr>)"
proof (induction t arbitrary: w s)
  case Nil
  then have "(heap w)(a \<mapsto> Streamlog (s\<lparr>sbuffer := sbuffer s\<rparr>)) = heap w"
    by (simp add: fun_upd_idem)
  then show ?case by simp
next
  case (Cons ch t)
  let ?s1 = "s\<lparr>sbuffer := sbuffer s @ [ch]\<rparr>"
  let ?w1 = "w\<lparr>heap := (heap w)(a \<mapsto> Streamlog ?s1)\<rparr>"
  have s: "step (Put o' ch) w = Some ?w1"
    using Cons.prems by (simp add: overflow_def to_char_type_to_int_type)
  have "run (map (Put o') t) ?w1 =
          Some (?w1\<lparr>heap := (heap ?w1)(a \<mapsto> Streamlog (?s1\<lparr>sbuffer := sbuffer ?s1 @ t\<rparr>))\<rparr>)"
    by (rule Cons.IH) (simp_all add: Cons.prems)
  then have "run (map (Put o') t) ?w1 =
          Some (w\<lparr>heap := (heap w)(a \<mapsto> Streamlog (s\<lparr>sbuffer := sbuffer s @ ch # t\<rparr>))\<rparr>)"
    by (simp add: fun_upd_def cong: if_cong)
  then show ?case by (simp add: s fun_upd_def del: step.simps cong: if_cong)
qed

text \<open>
  C1. An object is constructed at the address \<open>this\<close> for the stream \<open>o'\<close>. After any
  operations that the program survives, in any number and order, if the object is
  still alive then its destruction succeeds and writes into the stream's slot exactly
  the address that was there before the construction; nothing else changes, except
  that the object is gone. For two objects chained on one stream, first at \<open>a\<close> and
  then at \<open>b\<close>: after any text written while the second is installed, destroying the
  second puts \<open>a\<close> back into the slot, and the next character written to the stream
  is appended to the pending text of the object at \<open>a\<close>; every buffer at an address
  other than \<open>a\<close> and \<open>b\<close>, the one installed before the first construction
  included, is as it was. (The two argument objects of the constructions are in the
  store with their levels.)
\<close>

theorem destructor_restores_captured_buffer:
  "(run xs (construct get this o' p l w) = Some w1 \<longrightarrow> heap w1 this \<noteq> None \<longrightarrow>
      step (Destroy this) w1 =
        Some (w1\<lparr>rdbuf := (rdbuf w1)(o' := rdbuf w o'), heap := (heap w1)(this := None)\<rparr>))
   \<and> (a \<noteq> b \<longrightarrow>
      run (map (Put o') t @ [Destroy b, Put o' ch])
          (construct get b o' pb lb (construct get a o' pa la w)) =
        Some (w\<lparr>rdbuf := (rdbuf w)(o' := a),
                heap := (heap w)
                  (a \<mapsto> Streamlog ((fst (streamlog_ctor get a o' pa la (rdbuf w)))\<lparr>sbuffer := [ch]\<rparr>),
                   b := None),
                levels := (levels w)(pa \<mapsto> la, pb \<mapsto> lb)\<rparr>))"
proof (intro conjI impI)
  let ?s0 = "fst (streamlog_ctor get this o' p l (rdbuf w))"
  assume r: "run xs (construct get this o' p l w) = Some w1" and alive: "heap w1 this \<noteq> None"
  from run_keeps_members [OF r heap_construct] alive
  obtain s' where h: "heap w1 this = Some (Streamlog s')"
    and e: "s'\<lparr>sbuffer := []\<rparr> = ?s0\<lparr>sbuffer := []\<rparr>"
    by blast
  have "src (s'\<lparr>sbuffer := []\<rparr>) = o'" and "srcbuf (s'\<lparr>sbuffer := []\<rparr>) = rdbuf w o'"
    unfolding e by (simp_all add: streamlog_ctor_def Let_def)
  then have "src s' = o'" and "srcbuf s' = rdbuf w o'"
    by simp_all
  with h show "step (Destroy this) w1 =
      Some (w1\<lparr>rdbuf := (rdbuf w1)(o' := rdbuf w o'), heap := (heap w1)(this := None)\<rparr>)"
    by (simp add: streamlog_dtor_def)
next
  let ?A = "fst (streamlog_ctor get a o' pa la (rdbuf w))"
  let ?wa = "construct get a o' pa la w"
  let ?B = "fst (streamlog_ctor get b o' pb lb (rdbuf ?wa))"
  let ?wb = "construct get b o' pb lb ?wa"
  assume ab: "a \<noteq> b"
  have ra: "rdbuf ?wa = (rdbuf w)(o' := a)" and ha: "heap ?wa = (heap w)(a \<mapsto> Streamlog ?A)"
    by (simp_all add: construct_def streamlog_ctor_def Let_def)
  have rb: "rdbuf ?wb = (rdbuf ?wa)(o' := b)" and hb: "heap ?wb = (heap ?wa)(b \<mapsto> Streamlog ?B)"
    and kb: "sinks ?wb = sinks w"
    by (simp_all add: construct_def streamlog_ctor_def Let_def)
  have B: "src ?B = o'" "srcbuf ?B = a" "sbuffer ?B = []"
    by (simp_all add: streamlog_ctor_def Let_def ra)
  have A: "sbuffer ?A = []"
    by (simp add: streamlog_ctor_def Let_def)
  have p: "run (map (Put o') t) ?wb =
      Some (?wb\<lparr>heap := (heap ?wb)(b \<mapsto> Streamlog (?B\<lparr>sbuffer := sbuffer ?B @ t\<rparr>))\<rparr>)"
    by (rule run_puts) (simp_all add: rb hb)
  let ?w3 = "?wb\<lparr>heap := (heap ?wb)(b \<mapsto> Streamlog (?B\<lparr>sbuffer := sbuffer ?B @ t\<rparr>))\<rparr>"
  let ?w4 = "?w3\<lparr>rdbuf := (rdbuf ?w3)(o' := a), heap := (heap ?w3)(b := None)\<rparr>"
  have d: "step (Destroy b) ?w3 = Some ?w4"
    by (simp add: streamlog_dtor_def B)
  have r4: "rdbuf ?w4 o' = a" and h4: "heap ?w4 a = Some (Streamlog ?A)"
    using ab by (simp_all add: hb ha)
  have q: "step (Put o' ch) ?w4 =
      Some (?w4\<lparr>heap := (heap ?w4)(a \<mapsto> Streamlog (?A\<lparr>sbuffer := [ch]\<rparr>))\<rparr>)"
    unfolding step.simps r4 h4
    by (simp add: overflow_def to_char_type_to_int_type A)
  have fin: "?w4\<lparr>heap := (heap ?w4)(a \<mapsto> Streamlog (?A\<lparr>sbuffer := [ch]\<rparr>))\<rparr> =
      w\<lparr>rdbuf := (rdbuf w)(o' := a),
        heap := (heap w)(a \<mapsto> Streamlog (?A\<lparr>sbuffer := [ch]\<rparr>), b := None),
        levels := (levels w)(pa \<mapsto> la, pb \<mapsto> lb)\<rparr>"
    using ab
    by (intro world.equality) (auto simp: rb ra hb ha kb construct_def streamlog_ctor_def Let_def)
  show "run (map (Put o') t @ [Destroy b, Put o' ch]) ?wb =
      Some (w\<lparr>rdbuf := (rdbuf w)(o' := a),
              heap := (heap w)(a \<mapsto> Streamlog (?A\<lparr>sbuffer := [ch]\<rparr>), b := None),
              levels := (levels w)(pa \<mapsto> la, pb \<mapsto> lb)\<rparr>)"
    unfolding run_append p
    by (simp only: option.case run.simps d q fin)
qed

text \<open>
  An instance: stream 2 starts with the library buffer at address 3. In the second
  part the four components are the slot of stream 2, the text held at address 7, and
  the buffers at addresses 8 and 3.
\<close>

theorem destructor_restores_captured_buffer_witness:
  "(case run [Put 2 CHR ''a'', Flush 2, Put 2 CHR ''b'']
           (construct id 7 2 5 Info \<lparr>rdbuf = \<lambda>_. 3, heap = [3 \<mapsto> Plain []], levels = Map.empty, sinks = []\<rparr>) of
      None \<Rightarrow> False
    | Some w1 \<Rightarrow> heap w1 7 \<noteq> None \<and> map_option (\<lambda>w2. rdbuf w2 2) (step (Destroy 7) w1) = Some 3)
   \<and> map_option (\<lambda>w2. (rdbuf w2 2, map_option (case_streambuf id sbuffer) (heap w2 7), heap w2 8, heap w2 3))
       (run (map (Put 2) ''x'' @ [Destroy 8, Put 2 CHR ''y''])
          (construct id 8 2 6 Error
             (construct id 7 2 5 Info \<lparr>rdbuf = \<lambda>_. 3, heap = [3 \<mapsto> Plain []], levels = Map.empty, sinks = []\<rparr>))) =
       Some (7, Some ''y'', None, Some (Plain []))"
proof -
  let ?w0 = "\<lparr>rdbuf = \<lambda>_. 3, heap = [3 \<mapsto> Plain []], levels = Map.empty, sinks = []\<rparr> :: string world"
  let ?xs = "[Put 2 CHR ''a'', Flush 2, Put 2 CHR ''b'']"
  have "\<exists>w1. run ?xs (construct id 7 2 5 Info ?w0) = Some w1 \<and> heap w1 7 \<noteq> None"
    by (simp add: construct_def streamlog_ctor_def Let_def sync_def overflow_def)
  then obtain w1 where r: "run ?xs (construct id 7 2 5 Info ?w0) = Some w1" and h: "heap w1 7 \<noteq> None"
    by blast
  have n: "(7::nat) \<noteq> 8" by simp
  from destructor_restores_captured_buffer
      [where xs = ?xs and get = id and this = 7 and o' = 2 and p = 5 and l = Info
         and w = ?w0 and ?w1.0 = w1 and a = 7 and b = 8 and t = "''x''" and ch = "CHR ''y''"
         and pa = 5 and la = Info and pb = 6 and lb = Error]
    r h n
  have 1: "step (Destroy 7) w1 =
        Some (w1\<lparr>rdbuf := (rdbuf w1)(2 := rdbuf ?w0 2), heap := (heap w1)(7 := None)\<rparr>)"
    and 2: "run (map (Put 2) ''x'' @ [Destroy 8, Put 2 CHR ''y''])
          (construct id 8 2 6 Error (construct id 7 2 5 Info ?w0)) =
        Some (?w0\<lparr>rdbuf := (rdbuf ?w0)(2 := 7),
                heap := (heap ?w0)
                  (7 \<mapsto> Streamlog ((fst (streamlog_ctor id 7 2 5 Info (rdbuf ?w0)))\<lparr>sbuffer := [CHR ''y'']\<rparr>),
                   8 := None),
                levels := (levels ?w0)(5 \<mapsto> Info, 6 \<mapsto> Error)\<rparr>)"
    by blast+
  show ?thesis
    unfolding 2 r
    by (simp add: 1 h del: step.simps)
qed

text \<open>
  C6. Destroying an object, whatever its pending text, changes two things only: the
  slot of its stream, which gets the captured address, and the store, where the object
  and its pending text are gone. The sinks are as before the destruction: no call is
  made on either handle.
\<close>

theorem destructor_drops_pending_text:
  assumes "heap w this = Some (Streamlog s)"
  shows "step (Destroy this) w =
           Some (w\<lparr>rdbuf := (rdbuf w)(src s := srcbuf s), heap := (heap w)(this := None)\<rparr>)
         \<and> map_option sinks (step (Destroy this) w) = Some (sinks w)"
  using assms by (simp add: streamlog_dtor_def)

text \<open>An instance with the pending text \<open>''ab''\<close>.\<close>

theorem destructor_drops_pending_text_witness:
  "\<exists>w1 s. run (map (Put 2) ''ab'')
             (construct id 7 2 5 Info \<lparr>rdbuf = \<lambda>_. 3, heap = [3 \<mapsto> Plain []], levels = Map.empty, sinks = []\<rparr>) = Some w1
     \<and> heap w1 7 = Some (Streamlog s) \<and> sbuffer s = ''ab''
     \<and> map_option sinks (step (Destroy 7) w1) = Some []
     \<and> map_option (\<lambda>w2. (rdbuf w2 2, heap w2 7)) (step (Destroy 7) w1) = Some (3, None)"
proof -
  let ?w0 = "\<lparr>rdbuf = \<lambda>_. 3, heap = [3 \<mapsto> Plain []], levels = Map.empty, sinks = []\<rparr> :: string world"
  have "\<exists>w1 s. run (map (Put 2) ''ab'') (construct id 7 2 5 Info ?w0) = Some w1
      \<and> heap w1 7 = Some (Streamlog s) \<and> sbuffer s = ''ab'' \<and> sinks w1 = []
      \<and> src s = 2 \<and> srcbuf s = 3"
    by (simp add: construct_def streamlog_ctor_def Let_def overflow_def to_char_type_to_int_type)
  then obtain w1 s where r: "run (map (Put 2) ''ab'') (construct id 7 2 5 Info ?w0) = Some w1"
    and h: "heap w1 7 = Some (Streamlog s)" and p: "sbuffer s = ''ab''" and k: "sinks w1 = []"
    and m: "src s = 2" "srcbuf s = 3"
    by blast
  from destructor_drops_pending_text [OF h] k m
  have "map_option sinks (step (Destroy 7) w1) = Some []"
    and "map_option (\<lambda>w2. (rdbuf w2 2, heap w2 7)) (step (Destroy 7) w1) = Some (3, None)"
    by simp_all
  with r h p show ?thesis by blast
qed






end
